theory Spec2Isabelle
  imports Complex_Main
begin

section \<open>Match outcome simulator\<close>

text \<open>
  The simulator of the betting page: \<^verbatim>\<open>simulateMatch(matchId, duration = 40, adminOverride = null)\<close>
  and \<^verbatim>\<open>getProgressiveScore(events, matchMinute, duration = 40)\<close>.

  \<^verbatim>\<open>Math.random()\<close> is an explicit source of draws: a function from the number of
  draws already consumed to the next value, threaded through each iteration as a position.
  A draw is only consumed where the source evaluates \<^verbatim>\<open>Math.random()\<close>; the second draw
  of the forced path sits behind the short-circuit \<^verbatim>\<open>homeGoalsToGenerate > 0 &&\<close>.
  JavaScript numbers are idealised: goal counts are integers, draws and odds are reals.
\<close>

datatype team = Home | Away

datatype outcome = WinHome | WinAway | WinDraw

record goal_event =
  time :: nat
  team :: team

record admin_override =
  ov_homeGoals :: "int option"
  ov_awayGoals :: "int option"
  ov_winner :: "outcome option"

record sim_result =
  homeGoals :: int
  awayGoals :: int
  winner :: outcome
  events :: "goal_event list"

text \<open>
  The loop of the forced path:
  \<^verbatim>\<open>for (let t = 1; t <= duration && (homeGoalsToGenerate > 0 || awayGoalsToGenerate > 0); t++)\<close>.
  It returns the event list; the remaining counters are local to the loop.
\<close>

function forcedLoop ::
  "(nat \<Rightarrow> real) \<Rightarrow> nat \<Rightarrow> nat \<Rightarrow> nat \<Rightarrow> int \<Rightarrow> int \<Rightarrow> goal_event list \<Rightarrow> goal_event list"
where
  "forcedLoop rnd duration t pos homeGoalsToGenerate awayGoalsToGenerate evs =
     (if t \<le> duration \<and> (homeGoalsToGenerate > 0 \<or> awayGoalsToGenerate > 0) then
        (if rnd pos < 0.10 then
           (if homeGoalsToGenerate > 0 then
              (if rnd (pos + 1) < 0.5 then
                 forcedLoop rnd duration (t + 1) (pos + 2)
                   (homeGoalsToGenerate - 1) awayGoalsToGenerate
                   (evs @ [\<lparr>time = t, team = Home\<rparr>])
               else if awayGoalsToGenerate > 0 then
                 forcedLoop rnd duration (t + 1) (pos + 2)
                   homeGoalsToGenerate (awayGoalsToGenerate - 1)
                   (evs @ [\<lparr>time = t, team = Away\<rparr>])
               else
                 forcedLoop rnd duration (t + 1) (pos + 2)
                   homeGoalsToGenerate awayGoalsToGenerate evs)
            else if awayGoalsToGenerate > 0 then
              forcedLoop rnd duration (t + 1) (pos + 1)
                homeGoalsToGenerate (awayGoalsToGenerate - 1)
                (evs @ [\<lparr>time = t, team = Away\<rparr>])
            else
              forcedLoop rnd duration (t + 1) (pos + 1)
                homeGoalsToGenerate awayGoalsToGenerate evs)
         else
           forcedLoop rnd duration (t + 1) (pos + 1)
             homeGoalsToGenerate awayGoalsToGenerate evs)
      else evs)"
  by pat_completeness auto
termination
  by (relation "measure (\<lambda>(rnd, duration, t, pos, h, a, evs). Suc duration - t)") auto

declare forcedLoop.simps [simp del]

text \<open>
  The loop of the unforced path: \<^verbatim>\<open>for (let t = 1; t <= duration; t++)\<close>, with the two
  counters and the event list it updates.
\<close>

function unforcedLoop ::
  "(nat \<Rightarrow> real) \<Rightarrow> nat \<Rightarrow> nat \<Rightarrow> nat \<Rightarrow> int \<Rightarrow> int \<Rightarrow> goal_event list
     \<Rightarrow> int \<times> int \<times> goal_event list"
where
  "unforcedLoop rnd duration t pos hg ag evs =
     (if t \<le> duration then
        (if rnd pos < 0.07 then
           (if rnd (pos + 1) < 0.5 then
              unforcedLoop rnd duration (t + 1) (pos + 2) (hg + 1) ag
                (evs @ [\<lparr>time = t, team = Home\<rparr>])
            else
              unforcedLoop rnd duration (t + 1) (pos + 2) hg (ag + 1)
                (evs @ [\<lparr>time = t, team = Away\<rparr>]))
         else unforcedLoop rnd duration (t + 1) (pos + 1) hg ag evs)
      else (hg, ag, evs))"
  by pat_completeness auto
termination
  by (relation "measure (\<lambda>(rnd, duration, t, pos, hg, ag, evs). Suc duration - t)") auto

declare unforcedLoop.simps [simp del]

text \<open>
  The test that selects the forced path,
  \<^verbatim>\<open>adminOverride && adminOverride.homeGoals !== undefined && adminOverride.awayGoals !== undefined\<close>,
  together with the three fields the forced path reads.
\<close>

definition overrideTarget :: "admin_override option \<Rightarrow> (int \<times> int \<times> outcome option) option" where
  "overrideTarget adminOverride =
     (case adminOverride of
        None \<Rightarrow> None
      | Some ov \<Rightarrow>
          (case ov_homeGoals ov of
             None \<Rightarrow> None
           | Some h \<Rightarrow>
               (case ov_awayGoals ov of
                  None \<Rightarrow> None
                | Some a \<Rightarrow> Some (h, a, ov_winner ov))))"

text \<open>
  \<^verbatim>\<open>simulateMatch\<close>. On the forced path \<^verbatim>\<open>!winner\<close> is the absence of an explicit
  winner, and the result carries the override's goals, whatever events the loop produced.
\<close>

definition simulateMatch ::
  "(nat \<Rightarrow> real) \<Rightarrow> string \<Rightarrow> nat \<Rightarrow> admin_override option \<Rightarrow> sim_result"
where
  "simulateMatch rnd matchId duration adminOverride =
     (case overrideTarget adminOverride of
        Some (h, a, w) \<Rightarrow>
          \<lparr>homeGoals = h, awayGoals = a,
           winner = (case w of
                       Some explicit \<Rightarrow> explicit
                     | None \<Rightarrow> (if h > a then WinHome else if a > h then WinAway else WinDraw)),
           events = forcedLoop rnd duration 1 0 h a []\<rparr>
      | None \<Rightarrow>
          (case unforcedLoop rnd duration 1 0 0 0 [] of
             (hg, ag, evs) \<Rightarrow>
               \<lparr>homeGoals = hg, awayGoals = ag,
                winner = (if hg > ag then WinHome else if ag > hg then WinAway else WinDraw),
                events = evs\<rparr>))"

text \<open>
  \<^verbatim>\<open>getProgressiveScore\<close>: the match minute is mapped to the simulation second
  \<^verbatim>\<open>Math.floor((matchMinute / 90) * duration)\<close>; every event up to that second counts
  for the home side when its team is home and for the away side otherwise.
\<close>

fun countUpTo :: "int \<Rightarrow> goal_event list \<Rightarrow> int \<times> int \<Rightarrow> int \<times> int" where
  "countUpTo simSecond [] (home, away) = (home, away)"
| "countUpTo simSecond (ev # evs) (home, away) =
     (if int (time ev) \<le> simSecond then
        (if team ev = Home then countUpTo simSecond evs (home + 1, away)
         else countUpTo simSecond evs (home, away + 1))
      else countUpTo simSecond evs (home, away))"

definition getProgressiveScore :: "goal_event list \<Rightarrow> nat \<Rightarrow> nat \<Rightarrow> int \<times> int" where
  "getProgressiveScore evs matchMinute duration =
     countUpTo \<lfloor>(real matchMinute / 90) * real duration\<rfloor> evs (0, 0)"

text \<open>
  Two notions the properties of a simulated result are stated with: the number of events
  of one team, and the winner that the comparison of two goal counts gives (the source
  writes this comparison inline wherever it derives a winner).
\<close>

definition goalsOf :: "team \<Rightarrow> goal_event list \<Rightarrow> int" where
  "goalsOf tm evs = int (length (filter (\<lambda>ev. team ev = tm) evs))"

definition winnerByGoals :: "int \<Rightarrow> int \<Rightarrow> outcome" where
  "winnerByGoals h a = (if h > a then WinHome else if a > h then WinAway else WinDraw)"

text \<open>An event list in the order of time whose events all lie before tick \<open>t\<close>.\<close>

definition upToTick :: "nat \<Rightarrow> goal_event list \<Rightarrow> bool" where
  "upToTick t evs = (sorted (map time evs) \<and> (\<forall>ev \<in> set evs. time ev < t))"

text \<open>Concrete inputs: two sources of draws and two overrides of the score 2-1.\<close>

definition everyDrawZero :: "nat \<Rightarrow> real" where
  "everyDrawZero n = 0"

definition everyDrawHalf :: "nat \<Rightarrow> real" where
  "everyDrawHalf n = 1 / 2"

definition override_2_1 :: admin_override where
  "override_2_1 = \<lparr>ov_homeGoals = Some 2, ov_awayGoals = Some 1, ov_winner = None\<rparr>"

definition override_2_1_away :: admin_override where
  "override_2_1_away = \<lparr>ov_homeGoals = Some 2, ov_awayGoals = Some 1, ov_winner = Some WinAway\<rparr>"

section \<open>Odds engine\<close>

text \<open>
  \<^verbatim>\<open>calculateDynamicOdds(homeGoals, awayGoals)\<close> selects constants by branching on the
  score and renders each with \<^verbatim>\<open>toFixed(2)\<close>. The constants are reals here; \<^verbatim>\<open>toFixed(2)\<close>
  is the decimal rendering of the multiple of 1/100 nearest to its argument (the larger one
  on a tie), with a sign for negative arguments. \<^verbatim>\<open>totalGoals % 2\<close> is the remainder of
  JavaScript, whose sign follows the dividend. The returned object is an association list
  in the order of its keys. The parameters are \<open>hGoals\<close> and \<open>aGoals\<close> here, the
  source's names being those of the fields of a simulated result. The three 1X2 odds are
  assigned in every branch of the source's chain, so their initial values never show.
\<close>

definition digitChar :: "nat \<Rightarrow> char" where
  "digitChar d = ''0123456789'' ! d"

fun showNat :: "nat \<Rightarrow> string" where
  "showNat n = (if n < 10 then [digitChar n] else showNat (n div 10) @ [digitChar (n mod 10)])"

declare showNat.simps [simp del]

definition toFixed2 :: "real \<Rightarrow> string" where
  "toFixed2 x =
     (let n = nat \<lfloor>\<bar>x\<bar> * 100 + 1 / 2\<rfloor> in
        (if x < 0 then ''-'' else []) @ showNat (n div 100) @ ''.'' @
        [digitChar (n div 10 mod 10), digitChar (n mod 10)])"

definition jsRemainder :: "int \<Rightarrow> int \<Rightarrow> int" where
  "jsRemainder a b = sgn a * (\<bar>a\<bar> mod \<bar>b\<bar>)"

record odds_entry =
  selections :: "string list"
  odds :: "string list"

definition calculateDynamicOdds :: "int \<Rightarrow> int \<Rightarrow> (string \<times> odds_entry) list" where
  "calculateDynamicOdds hGoals aGoals =
     (let totalGoals = hGoals + aGoals;
          (odds_1, odds_X, odds_2) =
            (if hGoals > aGoals then (1.20, 5.00, 8.00)
             else if aGoals > hGoals then (8.00, 5.00, 1.20)
             else (4.00, 1.15, 4.00 :: real));
          btts_yes = (if hGoals > 0 \<and> aGoals > 0 then 1.10 else 2.50 :: real);
          btts_no = (if hGoals > 0 \<and> aGoals > 0 then 4.00 else 1.20 :: real);
          ov15 = (if real_of_int totalGoals > 1.5 then 1.15 else 3.20 :: real);
          un15 = (if real_of_int totalGoals < 1.5 then 1.15 else 3.20 :: real);
          ov25 = (if real_of_int totalGoals > 2.5 then 1.30 else 2.50 :: real);
          un25 = (if real_of_int totalGoals < 2.5 then 1.30 else 2.50 :: real);
          ov35 = (if real_of_int totalGoals > 3.5 then 1.40 else 2.20 :: real);
          un35 = (if real_of_int totalGoals < 3.5 then 1.40 else 2.20 :: real);
          ov45 = (if real_of_int totalGoals > 4.5 then 2.00 else 1.80 :: real);
          un45 = (if real_of_int totalGoals < 4.5 then 1.80 else 2.00 :: real);
          tofg_odds = [''1.05'', ''1.05'', ''1.05'', ''2.50'', ''3.50'', ''4.00''];
          oddGoals = (jsRemainder totalGoals 2 = 1);
          odd_odds = (if oddGoals then 1.10 else 3.00 :: real);
          even_odds = (if oddGoals then 3.00 else 1.10 :: real)
      in [(''1X2'',
             \<lparr>selections = [''1'', ''X'', ''2''],
              odds = [toFixed2 odds_1, toFixed2 odds_X, toFixed2 odds_2]\<rparr>),
          (''BTTS'',
             \<lparr>selections = [''Yes'', ''No''],
              odds = [toFixed2 btts_yes, toFixed2 btts_no]\<rparr>),
          (''OV/UN 1.5'',
             \<lparr>selections = [''Over 1.5'', ''Under 1.5''],
              odds = [toFixed2 ov15, toFixed2 un15]\<rparr>),
          (''OV/UN 2.5'',
             \<lparr>selections = [''Over 2.5'', ''Under 2.5''],
              odds = [toFixed2 ov25, toFixed2 un25]\<rparr>),
          (''Total Goals'',
             \<lparr>selections = [''Over 2.5'', ''Over 3.5'', ''Over 4.5'',
                            ''Under 2.5'', ''Under 3.5'', ''Under 4.5''],
              odds = [''1.85'', toFixed2 ov35, toFixed2 ov45,
                      toFixed2 un25, toFixed2 un35, toFixed2 un45]\<rparr>),
          (''Time of First Goal'',
             \<lparr>selections = [''0-15 min'', ''16-30 min'', ''31-45 min'',
                            ''46-60 min'', ''61-75 min'', ''76-90 min''],
              odds = tofg_odds\<rparr>),
          (''Total Goals Odd/Even'',
             \<lparr>selections = [''Odd'', ''Even''],
              odds = [toFixed2 odd_odds, toFixed2 even_odds]\<rparr>)])"

text \<open>
  The shape of a rendered odds value (an integer part of at least one digit, a point, two
  digits), and the odds a board gives to one selection of one market.
\<close>

definition isDigit :: "char \<Rightarrow> bool" where
  "isDigit c = (c \<in> set ''0123456789'')"

definition twoDecimals :: "string \<Rightarrow> bool" where
  "twoDecimals s =
     (case rev s of
        d2 # d1 # dot # ip \<Rightarrow>
          dot = CHR ''.'' \<and> isDigit d1 \<and> isDigit d2 \<and> ip \<noteq> [] \<and> list_all isDigit ip
      | _ \<Rightarrow> False)"

definition oddsOf :: "(string \<times> odds_entry) list \<Rightarrow> string \<Rightarrow> string \<Rightarrow> string option" where
  "oddsOf board market selection =
     (case map_of board market of
        None \<Rightarrow> None
      | Some entry \<Rightarrow> map_of (zip (selections entry) (odds entry)) selection)"

section \<open>Global match schedule\<close>

text \<open>
  \<^verbatim>\<open>matchScheduleService.ts\<close> and the time-based match system built on it. Times are
  milliseconds since the Unix epoch (\<^verbatim>\<open>Date.getTime()\<close>), the interval is in minutes.
  The optional \<^verbatim>\<open>schedule\<close> argument and the stored schedule it defaults to are one
  parameter; the clock (\<^verbatim>\<open>new Date()\<close>) and the shuffled pool of
  \<^verbatim>\<open>getAllAvailableMatches()\<close> are parameters as well.

  The schedule index is a JavaScript number. The interval is not validated anywhere, so
  the divisor \<^verbatim>\<open>matchInterval * 60000\<close> may be zero or negative: a division by zero gives
  \<^verbatim>\<open>Infinity\<close>, \<^verbatim>\<open>-Infinity\<close> or, for \<^verbatim>\<open>0 / 0\<close>, \<^verbatim>\<open>NaN\<close>, and \<^verbatim>\<open>Math.floor\<close> leaves
  these as they are. With a divisor other than zero the quotient is the real quotient.
\<close>

record GlobalSchedule =
  referenceEpoch :: int
  matchInterval :: int
  timezone :: string
  lastUpdated :: int

record team_ref =
  teamName :: string
  shortName :: string

record pool_match =
  pm_id :: string
  pm_homeTeam :: team_ref
  pm_awayTeam :: team_ref
  pm_kickoffTime :: int

record ScheduledMatch =
  sm_matchId :: string
  sm_scheduleIndex :: int
  sm_scheduledStartTime :: int
  sm_homeTeam :: string
  sm_awayTeam :: string

datatype js_number = Finite int | PlusInfinity | MinusInfinity | NotANumber

definition calculateScheduledTime :: "int \<Rightarrow> GlobalSchedule \<Rightarrow> int" where
  "calculateScheduledTime scheduleIndex sched =
     referenceEpoch sched + scheduleIndex * matchInterval sched * 60000"

definition findScheduleIndexForTime :: "int \<Rightarrow> GlobalSchedule \<Rightarrow> js_number" where
  "findScheduleIndexForTime t sched =
     (let timeDiff = t - referenceEpoch sched;
          divisor = matchInterval sched * 60000
      in if divisor = 0 then
           (if timeDiff > 0 then PlusInfinity
            else if timeDiff < 0 then MinusInfinity
            else NotANumber)
         else Finite \<lfloor>real_of_int timeDiff / real_of_int divisor\<rfloor>)"

text \<open>The test \<^verbatim>\<open>scheduleIndex < 0\<close>: true of \<^verbatim>\<open>-Infinity\<close>, false of \<^verbatim>\<open>Infinity\<close> and \<^verbatim>\<open>NaN\<close>.\<close>

definition belowZero :: "js_number \<Rightarrow> bool" where
  "belowZero x =
     (case x of
        Finite i \<Rightarrow> i < 0
      | MinusInfinity \<Rightarrow> True
      | PlusInfinity \<Rightarrow> False
      | NotANumber \<Rightarrow> False)"

text \<open>
  Reading the pool. \<^verbatim>\<open>scheduleIndex % allMatches.length\<close> is \<^verbatim>\<open>NaN\<close> when the pool is
  empty or the index is not finite, and \<^verbatim>\<open>allMatches[i]\<close> is \<^verbatim>\<open>undefined\<close> for \<^verbatim>\<open>NaN\<close>
  and outside the pool. Each function below returns, next to its result, the access it
  made to the pool, so that the index it used can be spoken about.
\<close>

datatype pool_access = NoAccess | AccessNaN | AccessAt int

definition poolIndex :: "js_number \<Rightarrow> 'a list \<Rightarrow> pool_access" where
  "poolIndex scheduleIndex allMatches =
     (case scheduleIndex of
        Finite i \<Rightarrow>
          (if length allMatches = 0 then AccessNaN
           else AccessAt (jsRemainder i (int (length allMatches))))
      | _ \<Rightarrow> AccessNaN)"

definition poolRead :: "'a list \<Rightarrow> pool_access \<Rightarrow> 'a option" where
  "poolRead allMatches acc =
     (case acc of
        AccessAt i \<Rightarrow> (if 0 \<le> i \<and> i < int (length allMatches) then Some (allMatches ! nat i) else None)
      | _ \<Rightarrow> None)"

text \<open>
  \<^verbatim>\<open>getMatchAtTime(time, allMatches, schedule)\<close>. The scheduled time is computed only
  after a match was found, which needs a finite index; \<open>indexValue\<close> reads it.
\<close>

definition indexValue :: "js_number \<Rightarrow> int" where
  "indexValue x = (case x of Finite i \<Rightarrow> i | _ \<Rightarrow> 0)"

definition getMatchAtTime ::
  "int \<Rightarrow> pool_match list \<Rightarrow> GlobalSchedule \<Rightarrow> pool_access \<times> ScheduledMatch option"
where
  "getMatchAtTime t allMatches sched =
     (let scheduleIndex = findScheduleIndexForTime t sched in
        if belowZero scheduleIndex then (NoAccess, None)
        else
          (let matchIndex = poolIndex scheduleIndex allMatches in
             case poolRead allMatches matchIndex of
               None \<Rightarrow> (matchIndex, None)
             | Some m \<Rightarrow>
                 (matchIndex,
                  Some \<lparr>sm_matchId = pm_id m,
                        sm_scheduleIndex = indexValue scheduleIndex,
                        sm_scheduledStartTime =
                          calculateScheduledTime (indexValue scheduleIndex) sched,
                        sm_homeTeam = teamName (pm_homeTeam m),
                        sm_awayTeam = teamName (pm_awayTeam m)\<rparr>)))"

text \<open>
  \<^verbatim>\<open>getCurrentMatch()\<close> of the time-based match system: the pool entry of the current
  index, with the scheduled kick-off and the index appended to its id. It does not test
  the entry it read: when the entry is \<^verbatim>\<open>undefined\<close>, building the result reads
  \<^verbatim>\<open>match.id\<close> and throws a \<^verbatim>\<open>TypeError\<close>.
\<close>

datatype 'a js_result = Returns 'a | ThrowsTypeError

definition getCurrentMatch ::
  "pool_match list \<Rightarrow> GlobalSchedule \<Rightarrow> int \<Rightarrow> pool_access \<times> pool_match option js_result"
where
  "getCurrentMatch allMatches sched now =
     (if length allMatches = 0 then (NoAccess, Returns None)
      else
        (let currentIndex = findScheduleIndexForTime now sched in
           if belowZero currentIndex then (NoAccess, Returns None)
           else
             (let matchIndex = poolIndex currentIndex allMatches in
                case poolRead allMatches matchIndex of
                  None \<Rightarrow> (matchIndex, ThrowsTypeError)
                | Some m \<Rightarrow>
                    (matchIndex,
                     Returns (Some
                       (m\<lparr>pm_kickoffTime :=
                            calculateScheduledTime (indexValue currentIndex) sched,
                          pm_id := pm_id m @ ''-'' @ showNat (nat (indexValue currentIndex))\<rparr>))))))"

text \<open>
  Concrete inputs: a pool of two matches and three schedules with the same reference
  epoch, of interval 30, 0 and -30 minutes.
\<close>

definition exampleSchedule :: GlobalSchedule where
  "exampleSchedule = \<lparr>referenceEpoch = 1700000000000, matchInterval = 30, timezone = ''UTC'', lastUpdated = 1700000000000\<rparr>"

definition examplePool :: "pool_match list" where
  "examplePool =
     [\<lparr>pm_id = ''en-ARS-vs-CHE'',
       pm_homeTeam = \<lparr>teamName = ''Arsenal'', shortName = ''ARS''\<rparr>,
       pm_awayTeam = \<lparr>teamName = ''Chelsea'', shortName = ''CHE''\<rparr>,
       pm_kickoffTime = 0\<rparr>,
      \<lparr>pm_id = ''en-LIV-vs-EVE'',
       pm_homeTeam = \<lparr>teamName = ''Liverpool'', shortName = ''LIV''\<rparr>,
       pm_awayTeam = \<lparr>teamName = ''Everton'', shortName = ''EVE''\<rparr>,
       pm_kickoffTime = 0\<rparr>]"

definition zeroIntervalSchedule :: GlobalSchedule where
  "zeroIntervalSchedule = exampleSchedule\<lparr>matchInterval := 0\<rparr>"


section \<open>Match clock and week advancement\<close>

text \<open>
  The state of the page component that the clock and the week-advancement effect read
  and write. React state is a record; an effect reads the values of the render it belongs
  to and its \<^verbatim>\<open>set...\<close> calls take effect together afterwards, so an effect is a
  function from the state it saw to the next state. Besides React state the record holds
  what the effect writes outside the component: the stored week of the last reshuffle
  (\<^verbatim>\<open>betting_last_reshuffle_week\<close>), the system state last saved, the number of fixture
  lists generated so far and whether a page reload has been scheduled.
\<close>

datatype phase = PreCountdown | Playing | Betting | NextCountdown

record system_state =
  currentWeek :: int
  savedTimeframeIdx :: int
  savedMatchState :: phase
  savedCountdown :: int

record clock_state =
  matchState :: phase
  prevMatchState :: phase
  hasAdvancedThisCycle :: bool
  currentTimeframeIdx :: int
  liveTimeframeIdx :: int
  countdown :: int
  matchTimer :: int
  bettingTimer :: int
  lastReshuffleWeek :: int
  shuffledFixtureSets :: nat
  fixtureSchedules :: nat
  savedSystemState :: "system_state option"
  reloadScheduled :: bool












section \<open>Settlement pipeline\<close>

text \<open>
  The settlement effect of the page component and the asynchronous handler
  \<^verbatim>\<open>handleMatchResults\<close> it starts. The component state is extended by what the effect
  reads and writes, by the handlers in flight, and by the world outside the component:
  the stored match history, the two tables of the results store, the calls to the store
  and to the bet ledger that have returned (in the order in which they returned, each
  with its outcome), and the pending \<^verbatim>\<open>setTimeout\<close> timers.

  The effect calls \<^verbatim>\<open>handleMatchResults()\<close> without awaiting it. The call runs the
  synchronous beginning of the handler: \<^verbatim>\<open>matches.map(async ...)\<close> starts one task per
  match, and each task runs up to its first \<^verbatim>\<open>await\<close>. From then on every step is an
  event of its own: a call of some task returns and the task runs up to its next
  \<^verbatim>\<open>await\<close>, or \<^verbatim>\<open>Promise.all\<close> is settled and the rest of the handler runs. Between
  two such events the effect may run again and other tasks may take their steps.

  A call takes effect on the store when it returns. It returns in one of three ways: it
  succeeds; it fails and says so in the \<^verbatim>\<open>error\<close> field of its answer, which the handler
  reads only for \<^verbatim>\<open>resolveBetsForMatch\<close>; or it throws, which ends the \<^verbatim>\<open>try\<close> block of
  its task. \<open>respond\<close> decides the outcome from the calls that have returned so far and
  the call that returns.
\<close>

record match_card =
  match_id :: string
  homeShortName :: string
  awayShortName :: string

record history_entry =
  h_id :: string
  h_homeTeam :: string
  h_awayTeam :: string
  h_homeGoals :: int
  h_awayGoals :: int
  h_winner :: outcome
  h_country :: string

record result_row =
  home_goals :: int
  away_goals :: int
  row_winner :: outcome
  is_final :: bool

datatype ext_call =
    SelectMatch string
  | UpdateMatchRaw string int int
  | SelectMatchResult string
  | UpdateMatchResult string result_row
  | InsertMatchResult string result_row
  | ResolveBetsForMatch string int int
  | ForceResolveStaleBets string

datatype call_outcome = Succeeded | Failed | Thrown

record timeout =
  timeoutId :: nat
  delayMs :: nat
  sweepMatch :: string

text \<open>
  A task is the asynchronous callback for one match that has a cached simulation, with the
  call it is waiting for. (The callback of a match without a cached simulation returns
  at once and does nothing.) A handler in flight holds the matches of its time slot, its
  tasks and, once it has run to its end, the ids of the timers that the function it
  returns would clear.
\<close>

datatype task_pc =
    AwaitSelectMatch
  | AwaitUpdateRaw
  | AwaitSelectResult
  | AwaitUpdateResult
  | AwaitInsertResult
  | AwaitResolve
  | TaskDone

record task =
  task_match :: match_card
  task_sim :: sim_result
  task_pc :: task_pc

record handler =
  h_matches :: "match_card list"
  h_tasks :: "task list"
  h_returned :: "nat list option"

record component_state = clock_state +
  resultsSavedForPhase :: bool
  selectedTimeSlot :: "string option"
  matchupsByTimeframe :: "string \<rightharpoonup> match_card list"
  matchSimCache :: "string \<rightharpoonup> sim_result"
  selectedCountry :: string
  storedHistory :: "history_entry list"
  matchHistory :: "history_entry list"
  matchesTable :: "string set"
  matchResultsTable :: "string \<rightharpoonup> result_row"
  calls :: "(ext_call \<times> call_outcome) list"
  inFlight :: "handler list"
  pendingTimeouts :: "timeout list"
  nextTimeoutId :: nat
  mounted :: bool

definition logCall :: "ext_call \<Rightarrow> call_outcome \<Rightarrow> component_state \<Rightarrow> component_state" where
  "logCall c out st = st\<lparr>calls := calls st @ [(c, out)]\<rparr>"

text \<open>
  The synchronous beginning of the callbacks, in the order of the list: a match with a
  cached simulation has its result appended to the stored history and its task waits
  for the match row it asked for.
\<close>

fun startTasks ::
  "(string \<rightharpoonup> sim_result) \<Rightarrow> string \<Rightarrow> match_card list \<Rightarrow> component_state
     \<Rightarrow> component_state \<times> task list"
where
  "startTasks cache country [] st = (st, [])"
| "startTasks cache country (m # ms) st =
     (case cache (match_id m) of
        None \<Rightarrow> startTasks cache country ms st
      | Some sim \<Rightarrow>
          (case startTasks cache country ms
                  (st\<lparr>storedHistory := storedHistory st @
                       [\<lparr>h_id = match_id m, h_homeTeam = homeShortName m,
                         h_awayTeam = awayShortName m,
                         h_homeGoals = homeGoals sim, h_awayGoals = awayGoals sim,
                         h_winner = winner sim, h_country = country\<rparr>]\<rparr>) of
             (st', ts) \<Rightarrow>
               (st', \<lparr>task_match = m, task_sim = sim, task_pc = AwaitSelectMatch\<rparr> # ts)))"

text \<open>
  One step of a task: the call it waits for returns, and the callback goes on to its next
  \<^verbatim>\<open>await\<close> or to its end. The match row and the result row are found when the lookup
  succeeded and the row is there. The answers to the three writes are not looked at, so
  after a write that failed the task goes on as after one that succeeded. A write that
  succeeded has put its row into the table.
\<close>

definition resumeTask ::
  "((ext_call \<times> call_outcome) list \<Rightarrow> ext_call \<Rightarrow> call_outcome) \<Rightarrow> task \<Rightarrow> component_state
     \<Rightarrow> component_state \<times> task"
where
  "resumeTask respond t st =
     (let id = match_id (task_match t);
          sim = task_sim t;
          resultWinner =
            (if homeGoals sim > awayGoals sim then WinHome
             else if awayGoals sim > homeGoals sim then WinAway
             else WinDraw);
          row = \<lparr>home_goals = homeGoals sim, away_goals = awayGoals sim,
                 row_winner = resultWinner, is_final = True\<rparr>;
          returned = (\<lambda>c. (respond (calls st) c, logCall c (respond (calls st) c) st))
      in case task_pc t of
           AwaitSelectMatch \<Rightarrow>
             (case returned (SelectMatch id) of
                (out, st1) \<Rightarrow>
                  if out = Succeeded \<and> id \<in> matchesTable st1
                  then (st1, t\<lparr>task_pc := AwaitUpdateRaw\<rparr>)
                  else (st1, t\<lparr>task_pc := TaskDone\<rparr>))
         | AwaitUpdateRaw \<Rightarrow>
             (case returned (UpdateMatchRaw id (homeGoals sim) (awayGoals sim)) of
                (out, st1) \<Rightarrow>
                  if out = Thrown then (st1, t\<lparr>task_pc := TaskDone\<rparr>)
                  else (st1, t\<lparr>task_pc := AwaitSelectResult\<rparr>))
         | AwaitSelectResult \<Rightarrow>
             (case returned (SelectMatchResult id) of
                (out, st1) \<Rightarrow>
                  if out = Thrown then (st1, t\<lparr>task_pc := TaskDone\<rparr>)
                  else if out = Succeeded \<and> matchResultsTable st1 id \<noteq> None
                  then (st1, t\<lparr>task_pc := AwaitUpdateResult\<rparr>)
                  else (st1, t\<lparr>task_pc := AwaitInsertResult\<rparr>))
         | AwaitUpdateResult \<Rightarrow>
             (case returned (UpdateMatchResult id row) of
                (out, st1) \<Rightarrow>
                  if out = Thrown then (st1, t\<lparr>task_pc := TaskDone\<rparr>)
                  else if out = Succeeded
                  then (st1\<lparr>matchResultsTable := (matchResultsTable st1)(id \<mapsto> row)\<rparr>,
                        t\<lparr>task_pc := AwaitResolve\<rparr>)
                  else (st1, t\<lparr>task_pc := AwaitResolve\<rparr>))
         | AwaitInsertResult \<Rightarrow>
             (case returned (InsertMatchResult id row) of
                (out, st1) \<Rightarrow>
                  if out = Thrown then (st1, t\<lparr>task_pc := TaskDone\<rparr>)
                  else if out = Succeeded
                  then (st1\<lparr>matchResultsTable := (matchResultsTable st1)(id \<mapsto> row)\<rparr>,
                        t\<lparr>task_pc := AwaitResolve\<rparr>)
                  else (st1, t\<lparr>task_pc := AwaitResolve\<rparr>))
         | AwaitResolve \<Rightarrow>
             (case returned (ResolveBetsForMatch id (homeGoals sim) (awayGoals sim)) of
                (out, st1) \<Rightarrow> (st1, t\<lparr>task_pc := TaskDone\<rparr>))
         | TaskDone \<Rightarrow> (st, t))"

text \<open>\<^verbatim>\<open>setTimeout(..., 95000)\<close> for the sweep of one match; the timer id is a fresh number.\<close>

definition setSweepTimeout :: "component_state \<Rightarrow> match_card \<Rightarrow> component_state" where
  "setSweepTimeout st m =
     st\<lparr>pendingTimeouts := pendingTimeouts st @
          [\<lparr>timeoutId = nextTimeoutId st, delayMs = 95000, sweepMatch = match_id m\<rparr>],
        nextTimeoutId := nextTimeoutId st + 1\<rparr>"

text \<open>
  \<^verbatim>\<open>handleMatchResults\<close>, given the matches of the selected time slot. Calling it starts
  the tasks and leaves the handler in flight. The handler reads the simulation cache and
  the country of the render in which the effect ran.
\<close>

definition handleMatchResults :: "match_card list \<Rightarrow> component_state \<Rightarrow> component_state" where
  "handleMatchResults matches st =
     (case startTasks (matchSimCache st) (selectedCountry st) matches st of
        (st1, ts) \<Rightarrow>
          st1\<lparr>inFlight := inFlight st1 @
                 [\<lparr>h_matches = matches, h_tasks = ts, h_returned = None\<rparr>]\<rparr>)"

text \<open>
  A call of task \<open>i\<close> of handler \<open>k\<close> returns. Nothing happens when there is no such
  task.
\<close>

definition callReturns ::
  "((ext_call \<times> call_outcome) list \<Rightarrow> ext_call \<Rightarrow> call_outcome) \<Rightarrow> nat \<Rightarrow> nat \<Rightarrow> component_state
     \<Rightarrow> component_state"
where
  "callReturns respond k i st =
     (if k < length (inFlight st) \<and> i < length (h_tasks (inFlight st ! k)) then
        (case resumeTask respond (h_tasks (inFlight st ! k) ! i) st of
           (st1, t') \<Rightarrow>
             st1\<lparr>inFlight :=
                   (inFlight st1)
                     [k := (inFlight st1 ! k)\<lparr>h_tasks := (h_tasks (inFlight st1 ! k))[i := t']\<rparr>]\<rparr>)
      else st)"

text \<open>
  \<^verbatim>\<open>Promise.all\<close> of handler \<open>k\<close> is settled and the rest of the handler runs: it
  refreshes the history shown, sets the flag and schedules one sweep per match of the
  slot. This needs every task of the handler to have ended, and happens once. What the
  handler then returns, the function clearing these timers, is kept with the handler;
  nothing in the component reads it.
\<close>

definition allSettled :: "nat \<Rightarrow> component_state \<Rightarrow> component_state" where
  "allSettled k st =
     (if k < length (inFlight st) \<and> h_returned (inFlight st ! k) = None \<and>
         list_all (\<lambda>t. task_pc t = TaskDone) (h_tasks (inFlight st ! k))
      then
        (let st2 = st\<lparr>matchHistory := storedHistory st, resultsSavedForPhase := True\<rparr>;
             st3 = foldl setSweepTimeout st2 (h_matches (inFlight st ! k))
         in st3\<lparr>inFlight :=
                  (inFlight st3)
                    [k := (inFlight st3 ! k)
                       \<lparr>h_returned := Some [nextTimeoutId st2 ..< nextTimeoutId st3]\<rparr>]\<rparr>)
      else st)"

text \<open>
  The settlement effect. It calls the handler when the phase is betting, a time slot is
  selected, the slot has matches and the flag is not set; it does not wait for the
  handler and does not use what the handler returns. Outside the betting phase it clears
  the flag. The effect itself returns nothing, so the second component, the cleanup
  React would run, is always absent.
\<close>

definition settlementEffect :: "component_state \<Rightarrow> component_state \<times> nat list option" where
  "settlementEffect st =
     (let st1 =
            (if matchState st = Betting \<and> \<not> resultsSavedForPhase st then
               (case selectedTimeSlot st of
                  None \<Rightarrow> st
                | Some slot \<Rightarrow>
                    (case matchupsByTimeframe st slot of
                       None \<Rightarrow> st
                     | Some matches \<Rightarrow> handleMatchResults matches st))
             else st);
          st2 = (if matchState st \<noteq> Betting then st1\<lparr>resultsSavedForPhase := False\<rparr> else st1)
      in (st2, None))"

text \<open>
  The events of a run of the component: the effect runs (on mount and whenever one of its
  dependencies has changed), a call returns, a \<^verbatim>\<open>Promise.all\<close> is settled, the user
  selects another country (the matches of the new country arrive one render later), the
  clock enters another phase.
\<close>

datatype event =
    EffectRuns
  | CallReturns nat nat
  | AllSettled nat
  | SelectCountry string
  | PhaseBecomes phase

definition react ::
  "((ext_call \<times> call_outcome) list \<Rightarrow> ext_call \<Rightarrow> call_outcome) \<Rightarrow> component_state \<Rightarrow> event
     \<Rightarrow> component_state"
where
  "react respond st ev =
     (case ev of
        EffectRuns \<Rightarrow> fst (settlementEffect st)
      | CallReturns k i \<Rightarrow> callReturns respond k i st
      | AllSettled k \<Rightarrow> allSettled k st
      | SelectCountry c \<Rightarrow> st\<lparr>selectedCountry := c\<rparr>
      | PhaseBecomes p \<Rightarrow> st\<lparr>matchState := p\<rparr>)"

definition runEvents ::
  "((ext_call \<times> call_outcome) list \<Rightarrow> ext_call \<Rightarrow> call_outcome) \<Rightarrow> event list \<Rightarrow> component_state
     \<Rightarrow> component_state"
where
  "runEvents respond evs st = foldl (react respond) st evs"

text \<open>
  What happens to timers afterwards: clearing a list of ids, unmounting the component
  (React runs the cleanup an effect returned, if any), and the passing of time, which
  fires the sweeps that are due: each calls \<^verbatim>\<open>forceResolveStaleBets(match.id)\<close>.
\<close>

definition clearTimeouts :: "nat list \<Rightarrow> component_state \<Rightarrow> component_state" where
  "clearTimeouts ids st =
     st\<lparr>pendingTimeouts := filter (\<lambda>t. timeoutId t \<notin> set ids) (pendingTimeouts st)\<rparr>"

definition unmount :: "nat list option \<Rightarrow> component_state \<Rightarrow> component_state" where
  "unmount cleanup st =
     (case cleanup of None \<Rightarrow> st | Some ids \<Rightarrow> clearTimeouts ids st)\<lparr>mounted := False\<rparr>"

definition fireSweep ::
  "((ext_call \<times> call_outcome) list \<Rightarrow> ext_call \<Rightarrow> call_outcome) \<Rightarrow> component_state \<Rightarrow> timeout
     \<Rightarrow> component_state"
where
  "fireSweep respond st t =
     logCall (ForceResolveStaleBets (sweepMatch t))
       (respond (calls st) (ForceResolveStaleBets (sweepMatch t))) st"

definition elapse ::
  "((ext_call \<times> call_outcome) list \<Rightarrow> ext_call \<Rightarrow> call_outcome) \<Rightarrow> nat \<Rightarrow> component_state
     \<Rightarrow> component_state"
where
  "elapse respond ms st =
     (foldl (fireSweep respond) st (filter (\<lambda>t. delayMs t \<le> ms) (pendingTimeouts st)))
       \<lparr>pendingTimeouts :=
          map (\<lambda>t. t\<lparr>delayMs := delayMs t - ms\<rparr>)
            (filter (\<lambda>t. \<not> delayMs t \<le> ms) (pendingTimeouts st))\<rparr>"

text \<open>
  Notions for the properties of a settlement: the final row of a score, which is the row
  the pipeline writes for it, and the calls that a later state has added to those of an
  earlier one.
\<close>

definition finalRow :: "int \<Rightarrow> int \<Rightarrow> result_row" where
  "finalRow h a = \<lparr>home_goals = h, away_goals = a, row_winner = winnerByGoals h a, is_final = True\<rparr>"

definition newCalls :: "component_state \<Rightarrow> component_state \<Rightarrow> (ext_call \<times> call_outcome) list" where
  "newCalls st st' = drop (length (calls st)) (calls st')"

text \<open>
  Concrete inputs. A store all of whose calls succeed, and one whose insertions of result
  rows fail. A component in the betting phase whose selected slot has two matches with
  cached results 2-1 and 0-0; both matches have a row in the matches table and the
  second has a stale result row. The events in which the calls of the two tasks of a
  handler return in turn, each task making its five calls.
\<close>

definition alwaysSucceeds :: "(ext_call \<times> call_outcome) list \<Rightarrow> ext_call \<Rightarrow> call_outcome" where
  "alwaysSucceeds returned c = Succeeded"

definition insertFails :: "(ext_call \<times> call_outcome) list \<Rightarrow> ext_call \<Rightarrow> call_outcome" where
  "insertFails returned c = (case c of InsertMatchResult m r \<Rightarrow> Failed | _ \<Rightarrow> Succeeded)"

definition exampleBetting :: component_state where
  "exampleBetting =
     \<lparr>matchState = Betting, prevMatchState = Betting, hasAdvancedThisCycle = False,
      currentTimeframeIdx = 0, liveTimeframeIdx = 0,
      countdown = 10, matchTimer = 90, bettingTimer = 30,
      lastReshuffleWeek = 0, shuffledFixtureSets = 0, fixtureSchedules = 0,
      savedSystemState = None, reloadScheduled = False,
      resultsSavedForPhase = False,
      selectedTimeSlot = Some ''slot-0'',
      matchupsByTimeframe =
        [''slot-0'' \<mapsto>
           [\<lparr>match_id = ''en-0-0'', homeShortName = ''ARS'', awayShortName = ''CHE''\<rparr>,
            \<lparr>match_id = ''en-0-1'', homeShortName = ''LIV'', awayShortName = ''EVE''\<rparr>]],
      matchSimCache =
        [''en-0-0'' \<mapsto>
           \<lparr>homeGoals = 2, awayGoals = 1, winner = WinHome,
            events = [\<lparr>time = 5, team = Home\<rparr>, \<lparr>time = 9, team = Away\<rparr>,
                      \<lparr>time = 30, team = Home\<rparr>]\<rparr>,
         ''en-0-1'' \<mapsto> \<lparr>homeGoals = 0, awayGoals = 0, winner = WinDraw, events = []\<rparr>],
      selectedCountry = ''en'',
      storedHistory = [], matchHistory = [],
      matchesTable = {''en-0-0'', ''en-0-1''},
      matchResultsTable =
        [''en-0-1'' \<mapsto> \<lparr>home_goals = 0, away_goals = 0, row_winner = WinDraw, is_final = False\<rparr>],
      calls = [], inFlight = [],
      pendingTimeouts = [], nextTimeoutId = 0, mounted = True\<rparr>"

definition callsInTurn :: "nat \<Rightarrow> event list" where
  "callsInTurn k =
     [CallReturns k 0, CallReturns k 1, CallReturns k 0, CallReturns k 1, CallReturns k 0,
      CallReturns k 1, CallReturns k 0, CallReturns k 1, CallReturns k 0, CallReturns k 1]"

definition oneSettlement :: "event list" where
  "oneSettlement = EffectRuns # callsInTurn 0 @ [AllSettled 0]"

text \<open>
  The events in which the effect runs again while its first handler is still waiting for
  its calls: the user selects another country, which re-runs the effect with the matches
  of the slot unchanged, and a second handler starts. Then the calls of the first
  handler return, those of the second, and both handlers run to their ends.
\<close>

definition reRunInFlight :: "event list" where
  "reRunInFlight =
     [EffectRuns, SelectCountry ''ke'', EffectRuns] @ callsInTurn 0 @ callsInTurn 1 @
     [AllSettled 0, AllSettled 1]"

text \<open>
  The order of the calls that have returned. A write of the final row of a match has
  returned when its update or its insertion is among the calls and did not throw; the
  calls are in order when every resolution of bets comes after a returned write of the
  final row of its match and score. A task is in order when it waits for the resolution
  only after such a write, and a state when its calls and all its tasks are.
\<close>

definition writeReturned :: "(ext_call \<times> call_outcome) list \<Rightarrow> string \<Rightarrow> int \<Rightarrow> int \<Rightarrow> bool" where
  "writeReturned cs m h a =
     ((UpdateMatchResult m (finalRow h a), Succeeded) \<in> set cs \<or>
      (UpdateMatchResult m (finalRow h a), Failed) \<in> set cs \<or>
      (InsertMatchResult m (finalRow h a), Succeeded) \<in> set cs \<or>
      (InsertMatchResult m (finalRow h a), Failed) \<in> set cs)"

definition resolvedAfterWrite :: "(ext_call \<times> call_outcome) list \<Rightarrow> bool" where
  "resolvedAfterWrite cs =
     (\<forall>n < length cs.
        case fst (cs ! n) of
          ResolveBetsForMatch m h a \<Rightarrow> writeReturned (take n cs) m h a
        | _ \<Rightarrow> True)"

definition taskInOrder :: "(ext_call \<times> call_outcome) list \<Rightarrow> task \<Rightarrow> bool" where
  "taskInOrder cs t =
     (task_pc t = AwaitResolve \<longrightarrow>
        writeReturned cs (match_id (task_match t)) (homeGoals (task_sim t)) (awayGoals (task_sim t)))"

definition callsInOrder :: "component_state \<Rightarrow> bool" where
  "callsInOrder st =
     (resolvedAfterWrite (calls st) \<and>
      (\<forall>h \<in> set (inFlight st). \<forall>t \<in> set (h_tasks h). taskInOrder (calls st) t))"

section \<open>Properties of the simulator\<close>

lemma unforcedLoop_counts:
  "unforcedLoop rnd d t pos hg ag evs = (hg', ag', evs') \<Longrightarrow>
   hg' - hg = goalsOf Home evs' - goalsOf Home evs \<and>
   ag' - ag = goalsOf Away evs' - goalsOf Away evs"
proof (induction rnd d t pos hg ag evs rule: unforcedLoop.induct)
  case (1 rnd duration t pos hg ag evs)
  show ?case
  proof (cases "t \<le> duration")
    case False
    with "1.prems" show ?thesis by (simp add: unforcedLoop.simps)
  next
    case True
    note le = this
    show ?thesis
    proof (cases "rnd pos < 0.07")
      case False
      with le "1.prems" "1.IH"(3) show ?thesis
        by (simp add: unforcedLoop.simps [of rnd duration t])
    next
      case True
      note goal = this
      show ?thesis
      proof (cases "rnd (pos + 1) < 0.5")
        case True
        with le goal "1.prems" "1.IH"(1) show ?thesis
          by (simp add: unforcedLoop.simps [of rnd duration t] goalsOf_def)
      next
        case False
        with le goal "1.prems" "1.IH"(2) show ?thesis
          by (simp add: unforcedLoop.simps [of rnd duration t] goalsOf_def)
      qed
    qed
  qed
qed

lemma upToTick_snoc:
  "upToTick t evs \<Longrightarrow> upToTick (t + 1) (evs @ [\<lparr>time = t, team = tm\<rparr>])"
  by (auto simp: upToTick_def sorted_append less_Suc_eq intro: less_imp_le)

lemma upToTick_mono: "upToTick t evs \<Longrightarrow> t \<le> t' \<Longrightarrow> upToTick t' evs"
  by (auto simp: upToTick_def)

lemma unforcedLoop_upToTick:
  "unforcedLoop rnd d t pos hg ag evs = (hg', ag', evs') \<Longrightarrow> upToTick t evs \<Longrightarrow>
   upToTick (max t (d + 1)) evs'"
proof (induction rnd d t pos hg ag evs rule: unforcedLoop.induct)
  case (1 rnd duration t pos hg ag evs)
  show ?case
  proof (cases "t \<le> duration")
    case False
    with "1.prems" show ?thesis
      by (simp add: unforcedLoop.simps upToTick_mono)
  next
    case True
    note le = this
    then have m: "max (t + 1) (duration + 1) = max t (duration + 1)" by (simp add: max_def)
    have nxt: "upToTick (t + 1) evs" using "1.prems"(2) by (rule upToTick_mono) simp
    show ?thesis
    proof (cases "rnd pos < 0.07")
      case False
      with le "1.prems"(1) have "unforcedLoop rnd duration (t + 1) (pos + 1) hg ag evs = (hg', ag', evs')"
        by (simp add: unforcedLoop.simps [of rnd duration t])
      from "1.IH"(3) [OF le False this nxt] m show ?thesis by simp
    next
      case True
      note goal = this
      show ?thesis
      proof (cases "rnd (pos + 1) < 0.5")
        case True
        with le goal "1.prems"(1)
        have "unforcedLoop rnd duration (t + 1) (pos + 2) (hg + 1) ag
                (evs @ [\<lparr>time = t, team = Home\<rparr>]) = (hg', ag', evs')"
          by (simp add: unforcedLoop.simps [of rnd duration t])
        from "1.IH"(1) [OF le goal True this upToTick_snoc [OF "1.prems"(2)]] m
        show ?thesis by simp
      next
        case False
        with le goal "1.prems"(1)
        have "unforcedLoop rnd duration (t + 1) (pos + 2) hg (ag + 1)
                (evs @ [\<lparr>time = t, team = Away\<rparr>]) = (hg', ag', evs')"
          by (simp add: unforcedLoop.simps [of rnd duration t])
        from "1.IH"(2) [OF le goal False this upToTick_snoc [OF "1.prems"(2)]] m
        show ?thesis by simp
      qed
    qed
  qed
qed

lemma forcedLoop_stop:
  "\<not> (t \<le> d \<and> (h > 0 \<or> a > 0)) \<Longrightarrow> forcedLoop rnd d t pos h a evs = evs"
  by (subst forcedLoop.simps) (simp only: if_False)

lemma forcedLoop_upToTick:
  "upToTick t evs \<Longrightarrow> upToTick (max t (d + 1)) (forcedLoop rnd d t pos h a evs)"
proof (induction rnd d t pos h a evs rule: forcedLoop.induct)
  case (1 rnd duration t pos h a evs)
  show ?case
  proof (cases "t \<le> duration \<and> (h > 0 \<or> a > 0)")
    case False
    then have "forcedLoop rnd duration t pos h a evs = evs" by (rule forcedLoop_stop)
    moreover have "upToTick (max t (duration + 1)) evs"
      using "1.prems" by (rule upToTick_mono) simp
    ultimately show ?thesis by simp
  next
    case True
    note run = this
    then have m: "max (t + 1) (duration + 1) = max t (duration + 1)" by (simp add: max_def)
    have nxt: "upToTick (t + 1) evs" using "1.prems" by (rule upToTick_mono) simp
    have snoc: "upToTick (t + 1) (evs @ [\<lparr>time = t, team = tm\<rparr>])" for tm
      using "1.prems" by (rule upToTick_snoc)
    show ?thesis
    proof (cases "rnd pos < 0.10")
      case False
      from "1.IH"(6) [OF run False nxt] run False m show ?thesis
        by (subst forcedLoop.simps) simp
    next
      case True
      note goal = this
      show ?thesis
      proof (cases "h > 0")
        case True
        note hpos = this
        show ?thesis
        proof (cases "rnd (pos + 1) < 0.5")
          case True
          from "1.IH"(1) [OF run goal hpos True snoc] run goal hpos True m show ?thesis
            by (subst forcedLoop.simps) simp
        next
          case False
          note coin = this
          show ?thesis
          proof (cases "a > 0")
            case True
            from "1.IH"(2) [OF run goal hpos coin True snoc] run goal hpos coin True m
            show ?thesis by (subst forcedLoop.simps) simp
          next
            case False
            from "1.IH"(3) [OF run goal hpos coin False nxt] run goal hpos coin False m
            show ?thesis by (subst forcedLoop.simps) simp
          qed
        qed
      next
        case False
        note hzero = this
        show ?thesis
        proof (cases "a > 0")
          case True
          from "1.IH"(4) [OF run goal hzero True snoc] run goal hzero True m
          show ?thesis by (subst forcedLoop.simps) simp
        next
          case False
          from "1.IH"(5) [OF run goal hzero False nxt] run goal hzero False m
          show ?thesis by (subst forcedLoop.simps) simp
        qed
      qed
    qed
  qed
qed

lemma countUpTo_all:
  "\<forall>ev \<in> set evs. int (time ev) \<le> simSecond \<Longrightarrow>
   countUpTo simSecond evs (home, away) = (home + goalsOf Home evs, away + goalsOf Away evs)"
proof (induction evs arbitrary: home away)
  case Nil
  show ?case by (simp add: goalsOf_def)
next
  case (Cons ev evs)
  then have tl: "\<forall>ev \<in> set evs. int (time ev) \<le> simSecond" and hd: "int (time ev) \<le> simSecond"
    by simp_all
  show ?case
  proof (cases "team ev")
    case Home
    with hd Cons.IH [OF tl] show ?thesis by (simp add: goalsOf_def)
  next
    case Away
    with hd Cons.IH [OF tl] show ?thesis by (simp add: goalsOf_def)
  qed
qed

lemma simulateMatch_unforced:
  assumes "overrideTarget adminOverride = None"
  shows "homeGoals (simulateMatch rnd matchId duration adminOverride) =
           goalsOf Home (events (simulateMatch rnd matchId duration adminOverride))"
    and "awayGoals (simulateMatch rnd matchId duration adminOverride) =
           goalsOf Away (events (simulateMatch rnd matchId duration adminOverride))"
    and "winner (simulateMatch rnd matchId duration adminOverride) =
           winnerByGoals (homeGoals (simulateMatch rnd matchId duration adminOverride))
             (awayGoals (simulateMatch rnd matchId duration adminOverride))"
proof -
  obtain hg ag evs where run: "unforcedLoop rnd duration 1 0 0 0 [] = (hg, ag, evs)"
    by (cases "unforcedLoop rnd duration 1 0 0 0 []") auto
  from unforcedLoop_counts [OF run]
  have cnt: "hg = goalsOf Home evs" "ag = goalsOf Away evs" by (simp_all add: goalsOf_def)
  have r: "simulateMatch rnd matchId duration adminOverride =
             \<lparr>homeGoals = hg, awayGoals = ag, winner = winnerByGoals hg ag, events = evs\<rparr>"
    using assms run by (simp add: simulateMatch_def winnerByGoals_def)
  show "homeGoals (simulateMatch rnd matchId duration adminOverride) =
           goalsOf Home (events (simulateMatch rnd matchId duration adminOverride))"
    using r cnt by simp
  show "awayGoals (simulateMatch rnd matchId duration adminOverride) =
           goalsOf Away (events (simulateMatch rnd matchId duration adminOverride))"
    using r cnt by simp
  show "winner (simulateMatch rnd matchId duration adminOverride) =
           winnerByGoals (homeGoals (simulateMatch rnd matchId duration adminOverride))
             (awayGoals (simulateMatch rnd matchId duration adminOverride))"
    using r by simp
qed

lemma simulateMatch_events_upToTick:
  "upToTick (duration + 1) (events (simulateMatch rnd matchId duration adminOverride))"
proof (cases "overrideTarget adminOverride")
  case None
  obtain hg ag evs where run: "unforcedLoop rnd duration 1 0 0 0 [] = (hg, ag, evs)"
    by (cases "unforcedLoop rnd duration 1 0 0 0 []") auto
  have "upToTick 1 []" by (simp add: upToTick_def)
  from unforcedLoop_upToTick [OF run this] have "upToTick (duration + 1) evs"
    by (simp add: max_def)
  with None run show ?thesis by (simp add: simulateMatch_def)
next
  case (Some tgt)
  obtain h a w where tgt: "tgt = (h, a, w)" by (cases tgt) auto
  have "upToTick 1 []" by (simp add: upToTick_def)
  from forcedLoop_upToTick [OF this, of duration rnd 0 h a]
  have "upToTick (duration + 1) (forcedLoop rnd duration 1 0 h a [])"
    by (simp add: max_def)
  with Some tgt show ?thesis by (simp add: simulateMatch_def)
qed

lemma simulateMatch_forced:
  assumes "overrideTarget adminOverride = Some (h, a, w)"
  shows "homeGoals (simulateMatch rnd matchId duration adminOverride) = h"
    and "awayGoals (simulateMatch rnd matchId duration adminOverride) = a"
    and "winner (simulateMatch rnd matchId duration adminOverride) =
           (case w of Some explicit \<Rightarrow> explicit | None \<Rightarrow> winnerByGoals h a)"
  using assms by (simp_all add: simulateMatch_def winnerByGoals_def split: option.split)

text \<open>
  Claim C5, as amended. Every result of \<^verbatim>\<open>simulateMatch\<close> has its events in
  non-decreasing order of time. On the unforced path the goals of each side equal the
  number of that side's events and the winner is the comparison of the goal counts. On the
  forced path the winner is the override's explicit winner when it gives one, and the
  comparison of the goal counts otherwise.
\<close>

theorem simulateMatch_invariants:
  "(let r = simulateMatch rnd matchId duration adminOverride in
      sorted (map time (events r)) \<and>
      (overrideTarget adminOverride = None \<longrightarrow>
         homeGoals r = goalsOf Home (events r) \<and>
         awayGoals r = goalsOf Away (events r) \<and>
         winner r = winnerByGoals (homeGoals r) (awayGoals r)) \<and>
      (\<forall>h a w. overrideTarget adminOverride = Some (h, a, w) \<longrightarrow>
         winner r = (case w of Some explicit \<Rightarrow> explicit
                     | None \<Rightarrow> winnerByGoals (homeGoals r) (awayGoals r))))"
proof -
  have "sorted (map time (events (simulateMatch rnd matchId duration adminOverride)))"
    using simulateMatch_events_upToTick [of duration rnd matchId adminOverride]
    by (simp add: upToTick_def)
  moreover have "overrideTarget adminOverride = Some (h, a, w) \<Longrightarrow>
      winner (simulateMatch rnd matchId duration adminOverride) =
        (case w of Some explicit \<Rightarrow> explicit
         | None \<Rightarrow> winnerByGoals (homeGoals (simulateMatch rnd matchId duration adminOverride))
                      (awayGoals (simulateMatch rnd matchId duration adminOverride)))" for h a w
    using simulateMatch_forced [of adminOverride h a w rnd matchId duration]
    by (simp split: option.split)
  ultimately show ?thesis
    using simulateMatch_unforced [of adminOverride rnd matchId duration]
    by (simp add: Let_def)
qed

theorem simulateMatch_invariants_witness:
  "overrideTarget None = None \<and>
   homeGoals (simulateMatch everyDrawZero ''m'' 3 None) = 3 \<and>
   goalsOf Home (events (simulateMatch everyDrawZero ''m'' 3 None)) = 3 \<and>
   winner (simulateMatch everyDrawZero ''m'' 3 None) = WinHome \<and>
   overrideTarget (Some override_2_1_away) = Some (2, 1, Some WinAway) \<and>
   winner (simulateMatch everyDrawZero ''m'' 3 (Some override_2_1_away)) = WinAway"
  using simulateMatch_invariants [of everyDrawZero "''m''" 3 None]
    simulateMatch_invariants [of everyDrawZero "''m''" 3 "Some override_2_1_away"]
  by (simp add: Let_def overrideTarget_def simulateMatch_def unforcedLoop.simps
      winnerByGoals_def goalsOf_def everyDrawZero_def override_2_1_away_def)

text \<open>
  The claim as first stated fails on the forced path: with the override 2-1 and the
  explicit winner away, and draws that produce two home events and one away event, the
  counts and the order hold and the winner is not the comparison of the goal counts.
\<close>

theorem simulateMatch_explicit_winner_counterexample:
  "\<not> (homeGoals (simulateMatch everyDrawZero ''m'' 40 (Some override_2_1_away)) =
          goalsOf Home (events (simulateMatch everyDrawZero ''m'' 40 (Some override_2_1_away))) \<and>
        awayGoals (simulateMatch everyDrawZero ''m'' 40 (Some override_2_1_away)) =
          goalsOf Away (events (simulateMatch everyDrawZero ''m'' 40 (Some override_2_1_away))) \<and>
        sorted (map time (events (simulateMatch everyDrawZero ''m'' 40 (Some override_2_1_away)))) \<and>
        winner (simulateMatch everyDrawZero ''m'' 40 (Some override_2_1_away)) =
          winnerByGoals (homeGoals (simulateMatch everyDrawZero ''m'' 40 (Some override_2_1_away)))
            (awayGoals (simulateMatch everyDrawZero ''m'' 40 (Some override_2_1_away))))"
  by (simp add: overrideTarget_def simulateMatch_def winnerByGoals_def override_2_1_away_def)

lemma explicit_winner_example:
  "simulateMatch everyDrawZero ''m'' 40 (Some override_2_1_away) =
   \<lparr>homeGoals = 2, awayGoals = 1, winner = WinAway,
    events = [\<lparr>time = 1, team = Home\<rparr>, \<lparr>time = 2, team = Home\<rparr>, \<lparr>time = 3, team = Away\<rparr>]\<rparr>"
  by (simp add: overrideTarget_def simulateMatch_def forcedLoop.simps everyDrawZero_def
      override_2_1_away_def)

text \<open>
  Claim C6. A forced simulation whose override gives the goals \<open>h\<close> and \<open>a\<close> returns
  exactly these goals for every source of random draws, and without an explicit winner
  its winner is the comparison of \<open>h\<close> and \<open>a\<close>, the one the unforced path makes of its
  own counts.
\<close>

theorem forced_goals_returned:
  "ov_homeGoals ov = Some h \<Longrightarrow> ov_awayGoals ov = Some a \<Longrightarrow>
   homeGoals (simulateMatch rnd matchId duration (Some ov)) = h \<and>
   awayGoals (simulateMatch rnd matchId duration (Some ov)) = a \<and>
   (ov_winner ov = None \<longrightarrow>
      winner (simulateMatch rnd matchId duration (Some ov)) =
        (if h > a then WinHome else if a > h then WinAway else WinDraw))"
  by (simp add: simulateMatch_def overrideTarget_def)

theorem forced_goals_returned_witness:
  "ov_homeGoals override_2_1 = Some 2 \<and> ov_awayGoals override_2_1 = Some 1 \<and>
   ov_winner override_2_1 = None \<and>
   homeGoals (simulateMatch everyDrawHalf ''m'' 40 (Some override_2_1)) = 2 \<and>
   awayGoals (simulateMatch everyDrawHalf ''m'' 40 (Some override_2_1)) = 1 \<and>
   winner (simulateMatch everyDrawHalf ''m'' 40 (Some override_2_1)) = WinHome"
  using forced_goals_returned [of override_2_1 2 1 everyDrawHalf "''m''" 40]
  by (simp add: override_2_1_def)

text \<open>
  Claim C7, as amended. For every result of \<^verbatim>\<open>simulateMatch\<close> with duration 40 on the
  unforced path (no admin override, or one that does not give both goal counts, as in
  the call that fills the simulation cache), the progressive score at full time equals
  the final score: \<^verbatim>\<open>getProgressiveScore(result.events, 90, 40)\<close> counts every event,
  and the goals of the result are the numbers of its events.
\<close>

theorem full_time_score_unforced:
  assumes "overrideTarget adminOverride = None"
  shows "getProgressiveScore (events (simulateMatch rnd matchId 40 adminOverride)) 90 40 =
           (homeGoals (simulateMatch rnd matchId 40 adminOverride),
            awayGoals (simulateMatch rnd matchId 40 adminOverride))"
proof -
  let ?r = "simulateMatch rnd matchId 40 adminOverride"
  have "upToTick (40 + 1) (events ?r)" by (rule simulateMatch_events_upToTick)
  then have "\<forall>ev \<in> set (events ?r). int (time ev) \<le> 40"
    by (auto simp: upToTick_def)
  from countUpTo_all [OF this, of 0 0]
  have "getProgressiveScore (events ?r) 90 40 = (goalsOf Home (events ?r), goalsOf Away (events ?r))"
    by (simp add: getProgressiveScore_def)
  with simulateMatch_unforced(1,2) [OF assms, of rnd matchId 40] show ?thesis by simp
qed

theorem full_time_score_unforced_witness:
  "overrideTarget None = None \<and>
   getProgressiveScore (events (simulateMatch everyDrawZero ''m'' 40 None)) 90 40 =
     (homeGoals (simulateMatch everyDrawZero ''m'' 40 None),
      awayGoals (simulateMatch everyDrawZero ''m'' 40 None)) \<and>
   homeGoals (simulateMatch everyDrawZero ''m'' 40 None) = 40 \<and>
   awayGoals (simulateMatch everyDrawZero ''m'' 40 None) = 0"
proof -
  have unforced: "overrideTarget None = None"
    by (simp add: overrideTarget_def)
  have goals: "homeGoals (simulateMatch everyDrawZero ''m'' 40 None) = 40"
    "awayGoals (simulateMatch everyDrawZero ''m'' 40 None) = 0"
    by (simp_all add: overrideTarget_def simulateMatch_def unforcedLoop.simps everyDrawZero_def)
  from full_time_score_unforced [OF unforced, of everyDrawZero "''m''"] unforced goals
  show ?thesis by simp
qed

text \<open>
  The claim as first stated fails on the forced path. With the override 2-1 and draws that
  never fall below the goal threshold, the forced loop runs out of ticks without emitting
  an event: the progressive score at minute 90 is 0-0 while the result says 2-1.
\<close>

theorem full_time_score_short_of_target:
  "getProgressiveScore (events (simulateMatch everyDrawHalf ''m'' 40 (Some override_2_1))) 90 40 \<noteq>
     (homeGoals (simulateMatch everyDrawHalf ''m'' 40 (Some override_2_1)),
      awayGoals (simulateMatch everyDrawHalf ''m'' 40 (Some override_2_1))) \<and>
   getProgressiveScore (events (simulateMatch everyDrawHalf ''m'' 40 (Some override_2_1))) 90 40
     = (0, 0) \<and>
   homeGoals (simulateMatch everyDrawHalf ''m'' 40 (Some override_2_1)) = 2 \<and>
   awayGoals (simulateMatch everyDrawHalf ''m'' 40 (Some override_2_1)) = 1"
  by (simp add: overrideTarget_def simulateMatch_def forcedLoop.simps getProgressiveScore_def
      everyDrawHalf_def override_2_1_def)

section \<open>Properties of the odds engine\<close>

lemma toFixed2_constants:
  "toFixed2 1.20 = ''1.20''" "toFixed2 5.00 = ''5.00''" "toFixed2 8.00 = ''8.00''"
  "toFixed2 4.00 = ''4.00''" "toFixed2 1.15 = ''1.15''" "toFixed2 1.10 = ''1.10''"
  "toFixed2 2.50 = ''2.50''" "toFixed2 3.20 = ''3.20''" "toFixed2 1.30 = ''1.30''"
  "toFixed2 1.40 = ''1.40''" "toFixed2 2.20 = ''2.20''" "toFixed2 2.00 = ''2.00''"
  "toFixed2 1.80 = ''1.80''" "toFixed2 3.00 = ''3.00''"
  by (simp_all add: toFixed2_def showNat.simps digitChar_def)

lemma toFixed2_if: "toFixed2 (if c then x else y) = (if c then toFixed2 x else toFixed2 y)"
  by simp

lemma bracket_compare:
  "(real_of_int t > 1.5) = (t \<ge> 2)" "(real_of_int t < 1.5) = (t \<le> 1)"
  "(real_of_int t > 2.5) = (t \<ge> 3)" "(real_of_int t < 2.5) = (t \<le> 2)"
  "(real_of_int t > 3.5) = (t \<ge> 4)" "(real_of_int t < 3.5) = (t \<le> 3)"
  "(real_of_int t > 4.5) = (t \<ge> 5)" "(real_of_int t < 4.5) = (t \<le> 4)"
  by (simp_all, linarith+)

lemma calculateDynamicOdds_rendered:
  "calculateDynamicOdds h a =
     [(''1X2'',
         \<lparr>selections = [''1'', ''X'', ''2''],
          odds = (if h > a then [''1.20'', ''5.00'', ''8.00'']
                  else if a > h then [''8.00'', ''5.00'', ''1.20'']
                  else [''4.00'', ''1.15'', ''4.00''])\<rparr>),
      (''BTTS'',
         \<lparr>selections = [''Yes'', ''No''],
          odds = (if h > 0 \<and> a > 0 then [''1.10'', ''4.00''] else [''2.50'', ''1.20''])\<rparr>),
      (''OV/UN 1.5'',
         \<lparr>selections = [''Over 1.5'', ''Under 1.5''],
          odds = [if h + a \<ge> 2 then ''1.15'' else ''3.20'',
                  if h + a \<le> 1 then ''1.15'' else ''3.20'']\<rparr>),
      (''OV/UN 2.5'',
         \<lparr>selections = [''Over 2.5'', ''Under 2.5''],
          odds = [if h + a \<ge> 3 then ''1.30'' else ''2.50'',
                  if h + a \<le> 2 then ''1.30'' else ''2.50'']\<rparr>),
      (''Total Goals'',
         \<lparr>selections = [''Over 2.5'', ''Over 3.5'', ''Over 4.5'',
                        ''Under 2.5'', ''Under 3.5'', ''Under 4.5''],
          odds = [''1.85'',
                  if h + a \<ge> 4 then ''1.40'' else ''2.20'',
                  if h + a \<ge> 5 then ''2.00'' else ''1.80'',
                  if h + a \<le> 2 then ''1.30'' else ''2.50'',
                  if h + a \<le> 3 then ''1.40'' else ''2.20'',
                  if h + a \<le> 4 then ''1.80'' else ''2.00'']\<rparr>),
      (''Time of First Goal'',
         \<lparr>selections = [''0-15 min'', ''16-30 min'', ''31-45 min'',
                        ''46-60 min'', ''61-75 min'', ''76-90 min''],
          odds = [''1.05'', ''1.05'', ''1.05'', ''2.50'', ''3.50'', ''4.00'']\<rparr>),
      (''Total Goals Odd/Even'',
         \<lparr>selections = [''Odd'', ''Even''],
          odds = (if jsRemainder (h + a) 2 = 1 then [''1.10'', ''3.00'']
                  else [''3.00'', ''1.10''])\<rparr>)]"
  unfolding calculateDynamicOdds_def Let_def bracket_compare toFixed2_if toFixed2_constants
  by (simp add: toFixed2_constants [simplified])

text \<open>
  Claim C8 at the bracket 4.5 of the market \<^verbatim>\<open>Total Goals\<close>. Over and Under get the same
  odds whatever the score: both 1.80 when the total is below 4.5 (at 0-0), both 2.00 when
  it is above (at 3-2). The side that did not come in is not dearer than the one that did.
\<close>

theorem over_under_45_same_odds:
  "oddsOf (calculateDynamicOdds 0 0) ''Total Goals'' ''Under 4.5'' = Some ''1.80'' \<and>
   oddsOf (calculateDynamicOdds 0 0) ''Total Goals'' ''Over 4.5'' = Some ''1.80'' \<and>
   oddsOf (calculateDynamicOdds 3 2) ''Total Goals'' ''Over 4.5'' = Some ''2.00'' \<and>
   oddsOf (calculateDynamicOdds 3 2) ''Total Goals'' ''Under 4.5'' = Some ''2.00''"
  by (simp add: calculateDynamicOdds_rendered oddsOf_def)

lemma over_under_45_always_equal:
  "oddsOf (calculateDynamicOdds h a) ''Total Goals'' ''Over 4.5'' =
   oddsOf (calculateDynamicOdds h a) ''Total Goals'' ''Under 4.5''"
  by (simp add: calculateDynamicOdds_rendered oddsOf_def)

lemma over_2_5_of_total_goals_fixed:
  "oddsOf (calculateDynamicOdds h a) ''Total Goals'' ''Over 2.5'' = Some ''1.85''"
  by (simp add: calculateDynamicOdds_rendered oddsOf_def)

lemma over_under_15_25_35:
  "oddsOf (calculateDynamicOdds h a) ''OV/UN 1.5'' ''Over 1.5'' =
     Some (if h + a \<ge> 2 then ''1.15'' else ''3.20'')"
  "oddsOf (calculateDynamicOdds h a) ''OV/UN 1.5'' ''Under 1.5'' =
     Some (if h + a \<ge> 2 then ''3.20'' else ''1.15'')"
  "oddsOf (calculateDynamicOdds h a) ''OV/UN 2.5'' ''Over 2.5'' =
     Some (if h + a \<ge> 3 then ''1.30'' else ''2.50'')"
  "oddsOf (calculateDynamicOdds h a) ''OV/UN 2.5'' ''Under 2.5'' =
     Some (if h + a \<ge> 3 then ''2.50'' else ''1.30'')"
  "oddsOf (calculateDynamicOdds h a) ''Total Goals'' ''Over 3.5'' =
     Some (if h + a \<ge> 4 then ''1.40'' else ''2.20'')"
  "oddsOf (calculateDynamicOdds h a) ''Total Goals'' ''Under 3.5'' =
     Some (if h + a \<ge> 4 then ''2.20'' else ''1.40'')"
  by (auto simp add: calculateDynamicOdds_rendered oddsOf_def)

text \<open>
  Claim C9. The board has the pinned vectors: the 1X2 odds 1.20, 5.00, 8.00 at 2-0 and
  4.00, 1.15, 4.00 at 1-1, the BTTS odds 2.50, 1.20 at 0-0. For every score, every entry of
  the board has as many odds as selections, and every odds value is a string with exactly
  two decimal places.
\<close>

theorem odds_board_pinned_and_well_formed:
  "map_option odds (map_of (calculateDynamicOdds 2 0) ''1X2'') = Some [''1.20'', ''5.00'', ''8.00''] \<and>
   map_option odds (map_of (calculateDynamicOdds 1 1) ''1X2'') = Some [''4.00'', ''1.15'', ''4.00''] \<and>
   map_option odds (map_of (calculateDynamicOdds 0 0) ''BTTS'') = Some [''2.50'', ''1.20''] \<and>
   (\<forall>(name, entry) \<in> set (calculateDynamicOdds h a).
      length (selections entry) = length (odds entry) \<and>
      (\<forall>v \<in> set (odds entry). twoDecimals v))"
  by (simp add: calculateDynamicOdds_rendered twoDecimals_def isDigit_def)

theorem odds_board_pinned_and_well_formed_witness:
  "(''BTTS'', \<lparr>selections = [''Yes'', ''No''], odds = [''1.10'', ''4.00'']\<rparr>)
     \<in> set (calculateDynamicOdds 3 2) \<and>
   length [''Yes'', ''No''] = length [''1.10'', ''4.00''] \<and>
   twoDecimals ''1.10'' \<and> twoDecimals ''4.00''"
proof -
  have mem: "(''BTTS'', \<lparr>selections = [''Yes'', ''No''], odds = [''1.10'', ''4.00'']\<rparr>)
               \<in> set (calculateDynamicOdds 3 2)"
    by (simp add: calculateDynamicOdds_rendered)
  from odds_board_pinned_and_well_formed [of 3 2] mem
  have "length (selections \<lparr>selections = [''Yes'', ''No''], odds = [''1.10'', ''4.00'']\<rparr>) =
          length (odds \<lparr>selections = [''Yes'', ''No''], odds = [''1.10'', ''4.00'']\<rparr>) \<and>
        (\<forall>v \<in> set (odds \<lparr>selections = [''Yes'', ''No''], odds = [''1.10'', ''4.00'']\<rparr>).
           twoDecimals v)"
    by blast
  with mem show ?thesis by simp
qed

section \<open>Properties of the schedule\<close>










text \<open>
  With the interval 0 and a time from the reference epoch on, the index is \<^verbatim>\<open>NaN\<close> or
  \<^verbatim>\<open>Infinity\<close>: \<^verbatim>\<open>getMatchAtTime\<close> finds no match and returns null, and
  \<^verbatim>\<open>getCurrentMatch\<close> throws.
\<close>

lemma zero_interval_from_the_epoch_on:
  "getMatchAtTime 1700000000000 examplePool zeroIntervalSchedule = (AccessNaN, None)"
  "getMatchAtTime 1700000000001 examplePool zeroIntervalSchedule = (AccessNaN, None)"
  "getCurrentMatch examplePool zeroIntervalSchedule 1700000000000 = (AccessNaN, ThrowsTypeError)"
  "getCurrentMatch examplePool zeroIntervalSchedule 1700000000001 = (AccessNaN, ThrowsTypeError)"
  by (simp_all add: exampleSchedule_def zeroIntervalSchedule_def examplePool_def
      findScheduleIndexForTime_def getMatchAtTime_def getCurrentMatch_def poolIndex_def
      poolRead_def belowZero_def Let_def)

section \<open>Properties of the clock and the week advancement\<close>














section \<open>Properties of the settlement pipeline\<close>

lemma settlementEffect_flag_set:
  "matchState st = Betting \<Longrightarrow> resultsSavedForPhase st \<Longrightarrow> settlementEffect st = (st, None)"
  by (simp add: settlementEffect_def)

lemma settlementEffect_outside_betting:
  "matchState st \<noteq> Betting \<Longrightarrow>
   settlementEffect st = (st\<lparr>resultsSavedForPhase := False\<rparr>, None)"
  by (simp add: settlementEffect_def)

lemma settlementEffect_starts_handler:
  "matchState st = Betting \<Longrightarrow> \<not> resultsSavedForPhase st \<Longrightarrow>
   selectedTimeSlot st = Some slot \<Longrightarrow> matchupsByTimeframe st slot = Some matches \<Longrightarrow>
   settlementEffect st = (handleMatchResults matches st, None)"
  by (simp add: settlementEffect_def)

lemma settlementEffect_no_cleanup: "snd (settlementEffect st) = None"
  by (simp add: settlementEffect_def Let_def)

lemma startTasks_frame:
  "startTasks cache country ms st = (st', ts) \<Longrightarrow>
   resultsSavedForPhase st' = resultsSavedForPhase st \<and> matchState st' = matchState st \<and>
   selectedTimeSlot st' = selectedTimeSlot st \<and>
   matchupsByTimeframe st' = matchupsByTimeframe st \<and>
   calls st' = calls st \<and> inFlight st' = inFlight st \<and>
   matchResultsTable st' = matchResultsTable st \<and>
   pendingTimeouts st' = pendingTimeouts st \<and>
   (\<forall>t \<in> set ts. task_pc t = AwaitSelectMatch)"
proof (induction ms arbitrary: st st' ts)
  case Nil
  then show ?case by simp
next
  case (Cons m ms)
  show ?case
  proof (cases "cache (match_id m)")
    case None
    with Cons.prems have "startTasks cache country ms st = (st', ts)" by simp
    from Cons.IH [OF this] show ?thesis .
  next
    case (Some sim)
    let ?st1 = "st\<lparr>storedHistory := storedHistory st @
                 [\<lparr>h_id = match_id m, h_homeTeam = homeShortName m,
                   h_awayTeam = awayShortName m,
                   h_homeGoals = homeGoals sim, h_awayGoals = awayGoals sim,
                   h_winner = winner sim, h_country = country\<rparr>]\<rparr>"
    obtain st2 ts2 where run: "startTasks cache country ms ?st1 = (st2, ts2)"
      by (cases "startTasks cache country ms ?st1") auto
    with Some Cons.prems have eq: "st' = st2"
      "ts = \<lparr>task_match = m, task_sim = sim, task_pc = AwaitSelectMatch\<rparr> # ts2"
      by simp_all
    from Cons.IH [OF run] eq show ?thesis by simp
  qed
qed

text \<open>
  Starting a handler leaves the flag as it is: the flag is set only where
  \<^verbatim>\<open>Promise.all\<close> is settled. So a run of the effect in the betting phase, with the flag
  not set and matches in the selected slot, puts one more handler in flight and leaves the
  flag unset, whatever is in flight already.
\<close>

lemma handleMatchResults_in_flight:
  "resultsSavedForPhase (handleMatchResults matches st) = resultsSavedForPhase st \<and>
   matchState (handleMatchResults matches st) = matchState st \<and>
   selectedTimeSlot (handleMatchResults matches st) = selectedTimeSlot st \<and>
   matchupsByTimeframe (handleMatchResults matches st) = matchupsByTimeframe st \<and>
   calls (handleMatchResults matches st) = calls st \<and>
   length (inFlight (handleMatchResults matches st)) = Suc (length (inFlight st))"
proof -
  obtain st1 ts where run:
    "startTasks (matchSimCache st) (selectedCountry st) matches st = (st1, ts)"
    by (cases "startTasks (matchSimCache st) (selectedCountry st) matches st") auto
  from startTasks_frame [OF run] run show ?thesis
    by (simp add: handleMatchResults_def)
qed

lemma effect_starts_another_handler:
  assumes "matchState st = Betting" and "\<not> resultsSavedForPhase st"
    and "selectedTimeSlot st = Some slot" and "matchupsByTimeframe st slot = Some matches"
  shows "length (inFlight (fst (settlementEffect st))) = Suc (length (inFlight st))"
    and "\<not> resultsSavedForPhase (fst (settlementEffect st))"
    and "matchState (fst (settlementEffect st)) = Betting"
    and "selectedTimeSlot (fst (settlementEffect st)) = Some slot"
    and "matchupsByTimeframe (fst (settlementEffect st)) slot = Some matches"
  using assms handleMatchResults_in_flight [of matches st]
  by (simp_all add: settlementEffect_starts_handler)

lemma callReturns_leaves_flag:
  "resultsSavedForPhase (callReturns respond k i st) = resultsSavedForPhase st"
  by (simp add: callReturns_def resumeTask_def logCall_def Let_def split: task_pc.split)

text \<open>
  The order that holds in every run. Each call is awaited before the next one is made, so
  a resolution of bets is called only after the update or the insertion of the final row
  of the same match and score has returned, whichever way the calls of the tasks and the
  runs of the effect are interleaved. Whether that write succeeded is not part of it.
\<close>

lemma writeReturned_append: "writeReturned cs m h a \<Longrightarrow> writeReturned (cs @ ds) m h a"
  by (auto simp: writeReturned_def)

lemma resolvedAfterWrite_snoc:
  "resolvedAfterWrite (cs @ [(c, out)]) =
     (resolvedAfterWrite cs \<and>
      (case c of ResolveBetsForMatch m h a \<Rightarrow> writeReturned cs m h a | _ \<Rightarrow> True))"
proof -
  let ?Q = "\<lambda>n. case fst ((cs @ [(c, out)]) ! n) of
                  ResolveBetsForMatch m h a \<Rightarrow> writeReturned (take n (cs @ [(c, out)])) m h a
                | _ \<Rightarrow> True"
  have old: "?Q n = (case fst (cs ! n) of
                       ResolveBetsForMatch m h a \<Rightarrow> writeReturned (take n cs) m h a
                     | _ \<Rightarrow> True)" if "n < length cs" for n
    using that by (simp add: nth_append split: ext_call.split)
  have new: "?Q (length cs) =
      (case c of ResolveBetsForMatch m h a \<Rightarrow> writeReturned cs m h a | _ \<Rightarrow> True)"
    by (simp split: ext_call.split)
  have "resolvedAfterWrite (cs @ [(c, out)]) = (\<forall>n < Suc (length cs). ?Q n)"
    by (simp add: resolvedAfterWrite_def)
  also have "\<dots> = ((\<forall>n < length cs. ?Q n) \<and> ?Q (length cs))"
    by (auto simp: less_Suc_eq)
  also have "(\<forall>n < length cs. ?Q n) = resolvedAfterWrite cs"
    using old by (simp add: resolvedAfterWrite_def)
  finally show ?thesis using new by simp
qed

lemma taskInOrder_append: "taskInOrder cs t \<Longrightarrow> taskInOrder (cs @ ds) t"
  by (auto simp: taskInOrder_def writeReturned_append)

lemma finalRow_of_sim:
  "\<lparr>home_goals = h, away_goals = a,
    row_winner = (if h > a then WinHome else if a > h then WinAway else WinDraw),
    is_final = True\<rparr> = finalRow h a"
  by (simp add: finalRow_def winnerByGoals_def)

lemma resumeTask_in_order:
  assumes run: "resumeTask respond t st = (st1, t')"
    and ord: "resolvedAfterWrite (calls st)" and tsk: "taskInOrder (calls st) t"
  shows "resolvedAfterWrite (calls st1) \<and> taskInOrder (calls st1) t' \<and>
         inFlight st1 = inFlight st \<and> (\<exists>ds. calls st1 = calls st @ ds)"
proof (cases "task_pc t")
  case AwaitSelectMatch
  with run ord show ?thesis
    by (auto simp: resumeTask_def logCall_def Let_def resolvedAfterWrite_snoc taskInOrder_def
        split: if_splits)
next
  case AwaitUpdateRaw
  with run ord show ?thesis
    by (auto simp: resumeTask_def logCall_def Let_def resolvedAfterWrite_snoc taskInOrder_def
        split: if_splits)
next
  case AwaitSelectResult
  with run ord show ?thesis
    by (auto simp: resumeTask_def logCall_def Let_def resolvedAfterWrite_snoc taskInOrder_def
        split: if_splits)
next
  case AwaitUpdateResult
  with run ord show ?thesis
    by (cases "respond (calls st)
          (UpdateMatchResult (match_id (task_match t))
             (finalRow (homeGoals (task_sim t)) (awayGoals (task_sim t))))")
       (auto simp: resumeTask_def logCall_def Let_def resolvedAfterWrite_snoc taskInOrder_def
          writeReturned_def finalRow_of_sim split: if_splits)
next
  case AwaitInsertResult
  with run ord show ?thesis
    by (cases "respond (calls st)
          (InsertMatchResult (match_id (task_match t))
             (finalRow (homeGoals (task_sim t)) (awayGoals (task_sim t))))")
       (auto simp: resumeTask_def logCall_def Let_def resolvedAfterWrite_snoc taskInOrder_def
          writeReturned_def finalRow_of_sim split: if_splits)
next
  case AwaitResolve
  with run ord tsk show ?thesis
    by (auto simp: resumeTask_def logCall_def Let_def resolvedAfterWrite_snoc taskInOrder_def)
next
  case TaskDone
  with run ord tsk show ?thesis
    by (auto simp: resumeTask_def Let_def)
qed

lemma callReturns_in_order:
  assumes "callsInOrder st"
  shows "callsInOrder (callReturns respond k i st)"
proof (cases "k < length (inFlight st) \<and> i < length (h_tasks (inFlight st ! k))")
  case False
  then have "callReturns respond k i st = st" unfolding callReturns_def by (rule if_not_P)
  with assms show ?thesis by simp
next
  case True
  let ?t = "h_tasks (inFlight st ! k) ! i"
  obtain st1 t' where run: "resumeTask respond ?t st = (st1, t')"
    by (cases "resumeTask respond ?t st") auto
  from True have mem: "inFlight st ! k \<in> set (inFlight st)" "?t \<in> set (h_tasks (inFlight st ! k))"
    by simp_all
  with assms have "taskInOrder (calls st) ?t" by (simp add: callsInOrder_def)
  from resumeTask_in_order [OF run _ this] assms
  obtain ds where st1: "resolvedAfterWrite (calls st1)" "taskInOrder (calls st1) t'"
    "inFlight st1 = inFlight st" "calls st1 = calls st @ ds"
    by (auto simp: callsInOrder_def)
  have old: "taskInOrder (calls st1) t" if "h \<in> set (inFlight st)" "t \<in> set (h_tasks h)" for h t
    using assms that st1(4) by (simp add: callsInOrder_def taskInOrder_append)
  let ?h' = "(inFlight st ! k)\<lparr>h_tasks := (h_tasks (inFlight st ! k))[i := t']\<rparr>"
  have res: "callReturns respond k i st = st1\<lparr>inFlight := (inFlight st)[k := ?h']\<rparr>"
    using True run st1(3) by (simp add: callReturns_def)
  have "taskInOrder (calls st1) t"
    if h: "h \<in> set ((inFlight st)[k := ?h'])" and t: "t \<in> set (h_tasks h)" for h t
  proof -
    from h have "h = ?h' \<or> h \<in> set (inFlight st)"
      using set_update_subset_insert [of "inFlight st" k ?h'] by auto
    then show ?thesis
    proof
      assume "h = ?h'"
      with t have "t \<in> set ((h_tasks (inFlight st ! k))[i := t'])" by simp
      then have "t = t' \<or> t \<in> set (h_tasks (inFlight st ! k))"
        using set_update_subset_insert [of "h_tasks (inFlight st ! k)" i t'] by auto
      with st1(2) old [OF mem(1)] show ?thesis by auto
    next
      assume "h \<in> set (inFlight st)"
      from old [OF this t] show ?thesis .
    qed
  qed
  with st1(1) res show ?thesis by (simp add: callsInOrder_def)
qed

lemma handleMatchResults_in_order:
  assumes "callsInOrder st"
  shows "callsInOrder (handleMatchResults matches st)"
proof -
  obtain st1 ts where run:
    "startTasks (matchSimCache st) (selectedCountry st) matches st = (st1, ts)"
    by (cases "startTasks (matchSimCache st) (selectedCountry st) matches st") auto
  from startTasks_frame [OF run] assms run show ?thesis
    by (auto simp: handleMatchResults_def callsInOrder_def taskInOrder_def)
qed

lemma settlementEffect_in_order:
  "callsInOrder st \<Longrightarrow> callsInOrder (fst (settlementEffect st))"
  using handleMatchResults_in_order [of st]
  by (auto simp: settlementEffect_def Let_def callsInOrder_def split: option.split)

lemma foldl_setSweepTimeout_frame:
  "calls (foldl setSweepTimeout st ms) = calls st \<and>
   inFlight (foldl setSweepTimeout st ms) = inFlight st"
  by (induction ms arbitrary: st) (simp_all add: setSweepTimeout_def)

lemma allSettled_in_order:
  assumes "callsInOrder st"
  shows "callsInOrder (allSettled k st)"
proof (cases "k < length (inFlight st) \<and> h_returned (inFlight st ! k) = None \<and>
    list_all (\<lambda>t. task_pc t = TaskDone) (h_tasks (inFlight st ! k))")
  case False
  then have "allSettled k st = st" unfolding allSettled_def by (rule if_not_P)
  with assms show ?thesis by simp
next
  case True
  let ?st2 = "st\<lparr>matchHistory := storedHistory st, resultsSavedForPhase := True\<rparr>"
  let ?st3 = "foldl setSweepTimeout ?st2 (h_matches (inFlight st ! k))"
  let ?h' = "(inFlight st ! k)\<lparr>h_returned := Some [nextTimeoutId ?st2 ..< nextTimeoutId ?st3]\<rparr>"
  have fr: "calls ?st3 = calls st" "inFlight ?st3 = inFlight st"
    using foldl_setSweepTimeout_frame [of ?st2 "h_matches (inFlight st ! k)"] by simp_all
  have res: "allSettled k st = ?st3\<lparr>inFlight := (inFlight st)[k := ?h']\<rparr>"
    using True fr by (simp add: allSettled_def Let_def)
  from True have mem: "inFlight st ! k \<in> set (inFlight st)" by simp
  have "taskInOrder (calls st) t"
    if h: "h \<in> set ((inFlight st)[k := ?h'])" and t: "t \<in> set (h_tasks h)" for h t
  proof -
    from h have "h = ?h' \<or> h \<in> set (inFlight st)"
      using set_update_subset_insert [of "inFlight st" k ?h'] by auto
    with t mem assms show ?thesis by (auto simp: callsInOrder_def)
  qed
  with assms res fr show ?thesis by (simp add: callsInOrder_def)
qed

lemma react_in_order:
  assumes "callsInOrder st"
  shows "callsInOrder (react respond st ev)"
proof (cases ev)
  case EffectRuns
  with settlementEffect_in_order [OF assms] show ?thesis by (simp add: react_def)
next
  case (CallReturns k i)
  with callReturns_in_order [OF assms] show ?thesis by (simp add: react_def)
next
  case (AllSettled k)
  with allSettled_in_order [OF assms] show ?thesis by (simp add: react_def)
next
  case (SelectCountry c)
  with assms show ?thesis by (simp add: react_def callsInOrder_def)
next
  case (PhaseBecomes p)
  with assms show ?thesis by (simp add: react_def callsInOrder_def)
qed

lemma runEvents_in_order: "callsInOrder st \<Longrightarrow> callsInOrder (runEvents respond evs st)"
  unfolding runEvents_def
  by (induction evs arbitrary: st) (simp_all add: react_in_order)

lemma resolution_follows_returned_write:
  assumes "calls st = []" and "inFlight st = []"
  shows "resolvedAfterWrite (calls (runEvents respond evs st))"
proof -
  from assms have "callsInOrder st" by (simp add: callsInOrder_def resolvedAfterWrite_def)
  from runEvents_in_order [OF this] show ?thesis by (simp add: callsInOrder_def)
qed

lemmas settlement_eval =
  runEvents_def react_def settlementEffect_def handleMatchResults_def callReturns_def
  resumeTask_def allSettled_def setSweepTimeout_def logCall_def callsInTurn_def
  oneSettlement_def reRunInFlight_def alwaysSucceeds_def insertFails_def finalRow_def
  winnerByGoals_def Let_def

text \<open>
  Claim C2 at a component whose effect runs again while the handler it started is still
  waiting for its calls. The flag is meant to prevent duplicate saves, but the handler
  sets it only after all its calls have returned. In between the flag is not set, so the
  second run of the effect starts a second handler for the same matches of the same
  betting phase: each match is saved to the history twice, its row is written twice, its
  bets are resolved twice and it gets two sweep timers.
\<close>

theorem settlement_repeated_while_handler_in_flight:
  "resultsSavedForPhase (runEvents alwaysSucceeds [EffectRuns, SelectCountry ''ke''] exampleBetting)
     = False \<and>
   length (inFlight (runEvents alwaysSucceeds [EffectRuns, SelectCountry ''ke'', EffectRuns]
                       exampleBetting)) = 2 \<and>
   map fst (calls (runEvents alwaysSucceeds reRunInFlight exampleBetting)) =
     [SelectMatch ''en-0-0'', SelectMatch ''en-0-1'',
      UpdateMatchRaw ''en-0-0'' 2 1, UpdateMatchRaw ''en-0-1'' 0 0,
      SelectMatchResult ''en-0-0'', SelectMatchResult ''en-0-1'',
      InsertMatchResult ''en-0-0'' (finalRow 2 1), UpdateMatchResult ''en-0-1'' (finalRow 0 0),
      ResolveBetsForMatch ''en-0-0'' 2 1, ResolveBetsForMatch ''en-0-1'' 0 0,
      SelectMatch ''en-0-0'', SelectMatch ''en-0-1'',
      UpdateMatchRaw ''en-0-0'' 2 1, UpdateMatchRaw ''en-0-1'' 0 0,
      SelectMatchResult ''en-0-0'', SelectMatchResult ''en-0-1'',
      UpdateMatchResult ''en-0-0'' (finalRow 2 1), UpdateMatchResult ''en-0-1'' (finalRow 0 0),
      ResolveBetsForMatch ''en-0-0'' 2 1, ResolveBetsForMatch ''en-0-1'' 0 0] \<and>
   map h_id (storedHistory (runEvents alwaysSucceeds reRunInFlight exampleBetting)) =
     [''en-0-0'', ''en-0-1'', ''en-0-0'', ''en-0-1''] \<and>
   map h_country (storedHistory (runEvents alwaysSucceeds reRunInFlight exampleBetting)) =
     [''en'', ''en'', ''ke'', ''ke''] \<and>
   map sweepMatch (pendingTimeouts (runEvents alwaysSucceeds reRunInFlight exampleBetting)) =
     [''en-0-0'', ''en-0-1'', ''en-0-0'', ''en-0-1''] \<and>
   matchState (runEvents alwaysSucceeds reRunInFlight exampleBetting) = Betting"
  by (simp add: settlement_eval exampleBetting_def)

text \<open>
  Claim C3 at a store whose insertion of a result row fails. The failure comes back in the
  \<^verbatim>\<open>error\<close> field of the answer, which the handler does not read: it reports the row
  as inserted and calls \<^verbatim>\<open>resolveBetsForMatch\<close> for the match "now that results are
  finalized". The bets of the first match are resolved although no result row of that match
  was written; the second match, whose row is updated, is written and then resolved.
\<close>

theorem bets_resolved_after_failed_insert:
  "calls (runEvents insertFails (EffectRuns # callsInTurn 0) exampleBetting) =
     [(SelectMatch ''en-0-0'', Succeeded), (SelectMatch ''en-0-1'', Succeeded),
      (UpdateMatchRaw ''en-0-0'' 2 1, Succeeded), (UpdateMatchRaw ''en-0-1'' 0 0, Succeeded),
      (SelectMatchResult ''en-0-0'', Succeeded), (SelectMatchResult ''en-0-1'', Succeeded),
      (InsertMatchResult ''en-0-0'' (finalRow 2 1), Failed),
      (UpdateMatchResult ''en-0-1'' (finalRow 0 0), Succeeded),
      (ResolveBetsForMatch ''en-0-0'' 2 1, Succeeded),
      (ResolveBetsForMatch ''en-0-1'' 0 0, Succeeded)] \<and>
   matchResultsTable (runEvents insertFails (EffectRuns # callsInTurn 0) exampleBetting)
     ''en-0-0'' = None \<and>
   matchResultsTable (runEvents insertFails (EffectRuns # callsInTurn 0) exampleBetting)
     ''en-0-1'' = Some (finalRow 0 0)"
  by (simp add: settlement_eval exampleBetting_def)

text \<open>
  Claim C4 at a component that is unmounted after a settlement. The settlement of the two
  matches schedules one sweep per match, each due in 95000 ms. The function that would
  clear the two timers is what the handler returns, and nobody reads it; the effect hands
  React no cleanup, so unmounting cancels neither timer, and when the 95 seconds have
  passed both sweeps call \<^verbatim>\<open>forceResolveStaleBets\<close> for a component that is no longer
  mounted.
\<close>

theorem sweep_timers_survive_unmount:
  "snd (settlementEffect exampleBetting) = None \<and>
   pendingTimeouts (runEvents alwaysSucceeds oneSettlement exampleBetting) =
     [\<lparr>timeoutId = 0, delayMs = 95000, sweepMatch = ''en-0-0''\<rparr>,
      \<lparr>timeoutId = 1, delayMs = 95000, sweepMatch = ''en-0-1''\<rparr>] \<and>
   pendingTimeouts (unmount (snd (settlementEffect exampleBetting))
                      (runEvents alwaysSucceeds oneSettlement exampleBetting)) =
     pendingTimeouts (runEvents alwaysSucceeds oneSettlement exampleBetting) \<and>
   mounted (unmount (snd (settlementEffect exampleBetting))
              (runEvents alwaysSucceeds oneSettlement exampleBetting)) = False \<and>
   map fst (newCalls (runEvents alwaysSucceeds oneSettlement exampleBetting)
     (elapse alwaysSucceeds 95000
        (unmount (snd (settlementEffect exampleBetting))
           (runEvents alwaysSucceeds oneSettlement exampleBetting)))) =
     [ForceResolveStaleBets ''en-0-0'', ForceResolveStaleBets ''en-0-1''] \<and>
   map h_returned (inFlight (runEvents alwaysSucceeds oneSettlement exampleBetting)) =
     [Some [0, 1]] \<and>
   pendingTimeouts (clearTimeouts [0, 1]
                      (runEvents alwaysSucceeds oneSettlement exampleBetting)) = []"
  by (simp add: settlement_eval exampleBetting_def unmount_def elapse_def fireSweep_def
      newCalls_def clearTimeouts_def)

end
